theory Spec2Isabelle
  imports Complex_Main "HOL-Library.Multiset" "HOL-Library.Word"
begin

section \<open>Data model of marketplace\_dashboard.py\<close>

text \<open>
  The script works on one pandas DataFrame, one row per listing. A table is a list of rows
  in file order. A timestamp is the integer pandas keeps in a datetime64 column. The two
  text columns that the script uses as keys (\<open>published_month\<close>, \<open>country\<close>) and
  \<open>budget_category\<close> may hold a missing cell (\<open>None\<close>: pandas' NaN, and NaT after the
  date conversion): \<open>read_csv\<close> produces one for an empty field. The numeric columns are
  taken as fully populated. \<open>job_count\<close> is an int64 column: a cell is a 64-bit word,
  read as a signed integer by \<open>sint\<close>, and sums of cells wrap around as numpy's do. A
  cell of the three float64 columns is the rational number the float stands for. Comparing
  two cells is exact; adding cells rounds, so the float64 summation of a column is a
  parameter of the model (\<open>float_sum\<close>) and nothing is assumed about it. Only the mean
  of the two middle cells in a median is taken without rounding.

  The row type is polymorphic in the type of \<open>published_month\<close>: text as \<open>read_csv\<close>
  returns it, a timestamp after \<open>to_datetime\<close>.
\<close>

type_synonym timestamp = int

type_synonym int64 = "64 word"

record 'd listing =
  published_month :: "'d option"
  job_count :: int64
  simulated_platform_fee :: rat
  price_gap_abs :: rat
  client_budget_usd :: rat
  country :: "string option"
  budget_category :: "string option"

type_synonym raw_table = "string listing list"
type_synonym table = "timestamp listing list"

text \<open>Exceptions the script can meet, and how a run of the script ends.\<close>

datatype exn = ParseError | IndexError | ValueError

datatype outcome = Completed | Stopped | Uncaught exn

section \<open>Loader\<close>

text \<open>
  \<open>pd.to_datetime(column)\<close> with its default \<open>errors='raise'\<close>: a missing cell becomes
  NaT, a text cell is converted, and the first text that cannot be converted raises. The
  grammar of dates is pandas' own, so the conversion of one text is the parameter
  \<open>parse\<close> (\<open>None\<close>: the text is not a date).
\<close>

fun to_datetime :: "(string \<Rightarrow> timestamp option) \<Rightarrow> string option list \<Rightarrow> exn + timestamp option list" where
  "to_datetime parse [] = Inr []"
| "to_datetime parse (None # cs) =
     (case to_datetime parse cs of Inl e \<Rightarrow> Inl e | Inr ts \<Rightarrow> Inr (None # ts))"
| "to_datetime parse (Some s # cs) =
     (case parse s of
        None \<Rightarrow> Inl ParseError
      | Some t \<Rightarrow> (case to_datetime parse cs of Inl e \<Rightarrow> Inl e | Inr ts \<Rightarrow> Inr (Some t # ts)))"

text \<open>\<open>df['published_month'] = col\<close>: the column is replaced, every other cell is kept.\<close>

definition set_published_month :: "'a listing \<Rightarrow> 'b option \<Rightarrow> 'b listing" where
  "set_published_month r t =
     \<lparr>published_month = t, job_count = job_count r,
      simulated_platform_fee = simulated_platform_fee r, price_gap_abs = price_gap_abs r,
      client_budget_usd = client_budget_usd r, country = country r,
      budget_category = budget_category r\<rparr>"

definition assign_published_month :: "'a listing list \<Rightarrow> 'b option list \<Rightarrow> 'b listing list" where
  "assign_published_month df col = map (\<lambda>(r, t). set_published_month r t) (zip df col)"

text \<open>
  What the script shows on the page, in order: error boxes, metric cards (label and
  number) and charts. The title, the headers and the markdown blocks are the same in every
  run that reaches them and are left out.
\<close>

datatype number = IntNum int | FloatNum "rat option"

record time_row =
  ts_month :: timestamp
  ts_job_count :: int64
  ts_fee :: rat

record line_chart =
  line_data :: "time_row list"
  annotation_x :: timestamp

record scatter_chart =
  scatter_data :: "table"
  vline_x :: int

record box_chart =
  box_data :: "table"
  box_x :: string
  box_y :: string
  categoryorder :: string
  categoryarray :: "string list"

datatype chart = LineChart line_chart | ScatterChart scatter_chart | BoxChart box_chart

datatype ui_event =
    StError string
  | StMetric string number
  | StPlotly chart

text \<open>
  \<open>load_data(path)\<close>. The file system is a map from a path to the table \<open>read_csv\<close>
  returns for the file there (\<open>None\<close>: \<open>os.path.exists\<close> is false). Paths are taken as
  absolute, so \<open>os.path.abspath\<close> is the identity. The function returns the messages it
  emitted and either the table (the empty DataFrame after a missing file) or the exception
  that left it. The memoisation by \<open>st.cache_data\<close> does not change the result of a call
  and is not modelled.
\<close>

definition load_data ::
  "(string \<Rightarrow> timestamp option) \<Rightarrow> (string \<Rightarrow> raw_table option) \<Rightarrow> string
     \<Rightarrow> ui_event list \<times> (exn + table)" where
  "load_data parse fs path =
     (case fs path of
        None \<Rightarrow> ([StError (''Error: Data file not found at '' @ path)], Inr [])
      | Some df \<Rightarrow>
          (case to_datetime parse (map published_month df) of
             Inl e \<Rightarrow> ([], Inl e)
           | Inr col \<Rightarrow> ([], Inr (assign_published_month df col))))"

section \<open>KPI summarizer\<close>

text \<open>
  \<open>Series.sum()\<close> of an integer column: the cells are added up one after the other, from
  zero, in the arithmetic of the column. On an int64 column every addition wraps.
\<close>

definition series_sum :: "'a::monoid_add list \<Rightarrow> 'a" where
  "series_sum col = foldl (+) 0 col"

text \<open>\<open>Series.nunique()\<close> with its default \<open>dropna=True\<close>: missing cells are not counted.\<close>

fun dropna :: "'a option list \<Rightarrow> 'a list" where
  "dropna [] = []"
| "dropna (None # cs) = dropna cs"
| "dropna (Some v # cs) = v # dropna cs"

definition nunique :: "'a option list \<Rightarrow> nat" where
  "nunique col = length (remdups (dropna col))"

text \<open>
  \<open>Series.median()\<close>: the middle value of the sorted column, the mean of the two middle
  values when the length is even, and NaN (\<open>None\<close>) for an empty column.
\<close>

definition median :: "rat list \<Rightarrow> rat option" where
  "median col =
     (let ys = sort col; n = length ys in
      if n = 0 then None
      else if n mod 2 = 1 then Some (ys ! (n div 2))
      else Some ((ys ! (n div 2 - 1) + ys ! (n div 2)) / 2))"

definition TOTAL_PROJECTS :: "'d listing list \<Rightarrow> int64" where
  "TOTAL_PROJECTS df = series_sum (map job_count df)"

definition TOTAL_CLIENT_COUNTRIES :: "'d listing list \<Rightarrow> nat" where
  "TOTAL_CLIENT_COUNTRIES df = nunique (map country df)"

definition AVG_FEE_PER_JOB :: "'d listing list \<Rightarrow> rat option" where
  "AVG_FEE_PER_JOB df = median (map simulated_platform_fee df)"

definition MEDIAN_FRICTION :: "'d listing list \<Rightarrow> rat option" where
  "MEDIAN_FRICTION df = median (map price_gap_abs df)"

section \<open>Time-series aggregator\<close>

text \<open>
  \<open>df.groupby('published_month', as_index=False).agg({'job_count': 'sum',
  'simulated_platform_fee': 'sum'})\<close> with the defaults \<open>sort=True\<close> and
  \<open>dropna=True\<close>. Split: the rows are taken in file order, a row with a missing key is
  skipped, every other row joins the end of the group of its key, and the groups are kept
  in ascending order of the key. Apply and combine: every group gives one output row, with
  the int64 sum of its \<open>job_count\<close> cells and the float64 sum of its
  \<open>simulated_platform_fee\<close> cells.
\<close>

type_synonym month_groups = "(timestamp \<times> table) list"

fun add_to_group :: "timestamp \<Rightarrow> timestamp listing \<Rightarrow> month_groups \<Rightarrow> month_groups" where
  "add_to_group m r [] = [(m, [r])]"
| "add_to_group m r ((k, rs) # gs) =
     (if m = k then (k, rs @ [r]) # gs
      else if m < k then (m, [r]) # (k, rs) # gs
      else (k, rs) # add_to_group m r gs)"

fun groupby_published_month :: "table \<Rightarrow> month_groups \<Rightarrow> month_groups" where
  "groupby_published_month [] gs = gs"
| "groupby_published_month (r # rs) gs =
     (case published_month r of
        None \<Rightarrow> groupby_published_month rs gs
      | Some m \<Rightarrow> groupby_published_month rs (add_to_group m r gs))"

definition agg_sum :: "(rat list \<Rightarrow> rat) \<Rightarrow> timestamp \<times> table \<Rightarrow> time_row" where
  "agg_sum float_sum g =
     \<lparr>ts_month = fst g,
      ts_job_count = series_sum (map job_count (snd g)),
      ts_fee = float_sum (map simulated_platform_fee (snd g))\<rparr>"

definition time_series_data :: "(rat list \<Rightarrow> rat) \<Rightarrow> table \<Rightarrow> time_row list" where
  "time_series_data float_sum df = map (agg_sum float_sum) (groupby_published_month df [])"

section \<open>Sampler\<close>

text \<open>
  \<open>df.sample(n, random_state=...)\<close> with the default \<open>replace=False\<close>. numpy's generators
  have state: \<open>RandomState seed\<close> is the state of a fresh generator built from an integer
  seed, and \<open>permutation g k\<close> is the permutation of the positions \<open>0..k-1\<close> that a
  generator in state \<open>g\<close> gives, with the state it is left in. Both are numpy's and are
  parameters. The process has one global generator; its state is threaded through.

  With an integer \<open>random_state\<close> pandas builds a fresh generator from it and leaves the
  global one alone; with \<open>random_state=None\<close> it draws from the global generator. numpy
  raises ValueError when \<open>n\<close> is larger than the population, and otherwise returns the
  first \<open>n\<close> entries of the permutation; pandas takes the rows at those positions.
\<close>

datatype random_state = Seed nat | Unseeded

fun take_rows :: "'a list \<Rightarrow> nat list \<Rightarrow> exn + 'a list" where
  "take_rows df [] = Inr []"
| "take_rows df (i # is) =
     (if i < length df
        then (case take_rows df is of Inl e \<Rightarrow> Inl e | Inr rs \<Rightarrow> Inr (df ! i # rs))
      else Inl IndexError)"

definition sample_df ::
  "(nat \<Rightarrow> 'g) \<Rightarrow> ('g \<Rightarrow> nat \<Rightarrow> nat list \<times> 'g) \<Rightarrow> nat \<Rightarrow> random_state \<Rightarrow> 'a list \<Rightarrow> 'g
     \<Rightarrow> (exn + 'a list) \<times> 'g" where
  "sample_df RandomState permutation n rs df glob =
     (if length df < n then (Inl ValueError, glob)
      else
        (case rs of
           Seed s \<Rightarrow>
             (take_rows df (take n (fst (permutation (RandomState s) (length df)))), glob)
         | Unseeded \<Rightarrow>
             (take_rows df (take n (fst (permutation glob (length df)))),
              snd (permutation glob (length df)))))"

definition plot_data_sample ::
  "(nat \<Rightarrow> 'g) \<Rightarrow> ('g \<Rightarrow> nat \<Rightarrow> nat list \<times> 'g) \<Rightarrow> 'a list \<Rightarrow> 'g \<Rightarrow> (exn + 'a list) \<times> 'g" where
  "plot_data_sample RandomState permutation df glob =
     sample_df RandomState permutation 10000 (Seed 42) df glob"

section \<open>Chart requests\<close>

text \<open>
  The annotation of the line chart is pinned at \<open>time_series_data['published_month'].iloc[-1]\<close>,
  which raises IndexError on an aggregate with no row.
\<close>

definition fig_time :: "time_row list \<Rightarrow> exn + line_chart" where
  "fig_time ts =
     (if ts = [] then Inl IndexError
      else Inr \<lparr>line_data = ts, annotation_x = ts_month (last ts)\<rparr>)"

definition fig_scatter :: "table \<Rightarrow> scatter_chart" where
  "fig_scatter s = \<lparr>scatter_data = s, vline_x = 500\<rparr>"

definition fig_box :: "table \<Rightarrow> box_chart" where
  "fig_box df =
     \<lparr>box_data = df, box_x = ''budget_category'', box_y = ''price_gap_abs'',
      categoryorder = ''array'',
      categoryarray = [''Low Budget'', ''Mid Budget'', ''High Budget'', ''Premium Budget'']\<rparr>"

section \<open>The script\<close>

text \<open>
  One run of the script, top to bottom, started with the global generator in state
  \<open>glob\<close>: what it put on the page and how it ended. An exception that no statement of the
  script catches ends the run as \<open>Uncaught\<close>; \<open>st.stop()\<close> ends it as \<open>Stopped\<close>.
\<close>

definition kpi_cards :: "table \<Rightarrow> ui_event list" where
  "kpi_cards df =
     [StMetric ''Total Projects Posted'' (IntNum (sint (TOTAL_PROJECTS df))),
      StMetric ''Total Client Countries'' (IntNum (int (TOTAL_CLIENT_COUNTRIES df))),
      StMetric ''Median Fee per Match'' (FloatNum (AVG_FEE_PER_JOB df)),
      StMetric ''Median Price Gap (Friction)'' (FloatNum (MEDIAN_FRICTION df))]"

definition dashboard ::
  "(string \<Rightarrow> timestamp option) \<Rightarrow> (rat list \<Rightarrow> rat) \<Rightarrow> (nat \<Rightarrow> 'g) \<Rightarrow> ('g \<Rightarrow> nat \<Rightarrow> nat list \<times> 'g)
     \<Rightarrow> (string \<Rightarrow> raw_table option) \<Rightarrow> string \<Rightarrow> 'g \<Rightarrow> ui_event list \<times> outcome" where
  "dashboard parse float_sum RandomState permutation fs path glob =
     (case load_data parse fs path of
        (ev, Inl e) \<Rightarrow> (ev, Uncaught e)
      | (ev, Inr my_dashboard_data) \<Rightarrow>
          if my_dashboard_data = [] then (ev, Stopped)
          else
            (let ev1 = ev @ kpi_cards my_dashboard_data in
             case fig_time (time_series_data float_sum my_dashboard_data) of
               Inl e \<Rightarrow> (ev1, Uncaught e)
             | Inr ft \<Rightarrow>
                 (let ev2 = ev1 @ [StPlotly (LineChart ft)] in
                  case fst (plot_data_sample RandomState permutation my_dashboard_data glob) of
                    Inl e \<Rightarrow> (ev2, Uncaught e)
                  | Inr s \<Rightarrow>
                      (ev2 @ [StPlotly (ScatterChart (fig_scatter s)),
                              StPlotly (BoxChart (fig_box my_dashboard_data))],
                       Completed))))"

section \<open>Reference notions the claims are stated against\<close>

text \<open>
  A median of a column in the usual sense: at least half of the cells are not above it and
  at least half are not below it. The mean is the sum divided by the number of cells. The
  exact sum of an int64 column is the sum of its cells as mathematical integers.
\<close>

definition spec_median :: "rat list \<Rightarrow> rat \<Rightarrow> bool" where
  "spec_median xs m \<longleftrightarrow>
     length xs \<le> 2 * length (filter (\<lambda>x. x \<le> m) xs) \<and>
     length xs \<le> 2 * length (filter (\<lambda>x. m \<le> x) xs)"

definition spec_mean :: "rat list \<Rightarrow> rat" where
  "spec_mean xs = sum_list xs / of_nat (length xs)"

definition exact_sum :: "int64 list \<Rightarrow> int" where
  "exact_sum col = sum_list (map sint col)"

section \<open>Sample inputs\<close>

text \<open>
  Concrete files, tables, a date converter, a summation and a generator on which the
  theorems below are exercised. \<open>unrounded_sum\<close> is the float64 sum wherever no addition
  rounds, as on the small whole numbers used here. The state of the sample generator is a
  counter: in an even state it gives the positions in reverse, in an odd state in order,
  and every draw advances the counter.
\<close>

definition sample_listing :: "'d option \<Rightarrow> int64 \<Rightarrow> rat \<Rightarrow> string option \<Rightarrow> 'd listing" where
  "sample_listing m j f c =
     \<lparr>published_month = m, job_count = j, simulated_platform_fee = f, price_gap_abs = 5,
      client_budget_usd = 500, country = c, budget_category = Some ''Mid Budget''\<rparr>"

definition parse_sample :: "string \<Rightarrow> timestamp option" where
  "parse_sample s =
     (if s = ''2024-01-01'' then Some 1704067200
      else if s = ''2024-02-01'' then Some 1706745600
      else None)"

definition unrounded_sum :: "rat list \<Rightarrow> rat" where
  "unrounded_sum col = sum_list col"

definition single_file :: "string \<Rightarrow> raw_table \<Rightarrow> string \<Rightarrow> raw_table option" where
  "single_file p t q = (if q = p then Some t else None)"

definition counter_RandomState :: "nat \<Rightarrow> nat" where
  "counter_RandomState seed = seed"

definition counter_permutation :: "nat \<Rightarrow> nat \<Rightarrow> nat list \<times> nat" where
  "counter_permutation g k = (if even g then rev [0..<k] else [0..<k], Suc g)"

definition three_rows :: table where
  "three_rows =
     [sample_listing (Some 1706745600) 10 4 (Some ''US''),
      sample_listing (Some 1704067200) 20 6 (Some ''FR''),
      sample_listing (Some 1706745600) 30 20 (Some ''US'')]"

definition four_rows :: table where
  "four_rows =
     [sample_listing (Some 1704067200) 1 10 (Some ''US''),
      sample_listing (Some 1704067200) 1 20 (Some ''US''),
      sample_listing (Some 1706745600) 1 30 (Some ''FR''),
      sample_listing (Some 1706745600) 1 40 (Some ''DE'')]"

definition overflow_rows :: table where
  "overflow_rows =
     [sample_listing (Some 1704067200) 9223372036854775807 4 (Some ''US''),
      sample_listing (Some 1704067200) 1 6 (Some ''FR'')]"

definition numbered_listing :: "nat \<Rightarrow> timestamp listing" where
  "numbered_listing i = sample_listing (Some 1704067200) (of_nat i) 10 (Some ''US'')"

definition ten_thousand_rows :: table where
  "ten_thousand_rows = map numbered_listing [0..<10000]"

definition unparseable_file :: raw_table where
  "unparseable_file =
     [sample_listing (Some ''2024-01-01'') 10 4 (Some ''US''),
      sample_listing (Some ''last spring'') 20 6 (Some ''FR'')]"

definition blank_month_file :: raw_table where
  "blank_month_file =
     [sample_listing (Some ''2024-01-01'') 10 4 (Some ''US''),
      sample_listing None 5 6 (Some ''FR'')]"

definition blank_month_table :: table where
  "blank_month_table =
     [sample_listing (Some 1704067200) 10 4 (Some ''US''),
      sample_listing None 5 6 (Some ''FR'')]"

section \<open>Facts about the column operations\<close>

lemma foldl_add_sum_list: "foldl (+) a xs = a + sum_list (xs :: 'a::monoid_add list)"
  by (induction xs arbitrary: a) (simp_all add: add.assoc)

lemma series_sum_sum_list: "series_sum xs = sum_list xs"
  by (simp add: series_sum_def foldl_add_sum_list)

lemma word_sum_list_sint:
  "sum_list ws = (word_of_int (sum_list (map sint ws)) :: 'a::len word)"
  by (induction ws) simp_all

lemma sint_series_sum:
  "sint (series_sum col :: int64) = signed_take_bit 63 (exact_sum col)"
  unfolding series_sum_sum_list exact_sum_def
  by (subst word_sum_list_sint) (simp add: sint_sbintrunc')

lemma sint_series_sum_in_range:
  "- (2 ^ 63) \<le> exact_sum col \<Longrightarrow> exact_sum col < 2 ^ 63 \<Longrightarrow>
   sint (series_sum col :: int64) = exact_sum col"
  by (simp add: sint_series_sum signed_take_bit_int_eq_self)

lemma set_dropna: "set (dropna col) = {v. Some v \<in> set col}"
  by (induction col rule: dropna.induct) auto

lemma nunique_card: "nunique col = card {v. Some v \<in> set col}"
  by (simp add: nunique_def length_remdups_card_conv set_dropna)

subsection \<open>The median of a sorted column\<close>

lemma count_le_sorted:
  fixes ys :: "rat list"
  assumes "sorted ys" "k < length ys" "ys ! k \<le> m"
  shows "Suc k \<le> length (filter (\<lambda>x. x \<le> m) ys)"
proof -
  have all: "\<forall>x\<in>set (take (Suc k) ys). x \<le> m"
  proof
    fix x assume "x \<in> set (take (Suc k) ys)"
    then obtain i where i: "i < Suc k" "i < length ys" "x = ys ! i"
      by (auto simp: in_set_conv_nth)
    then have "ys ! i \<le> ys ! k"
      using assms(1,2) by (intro sorted_nth_mono) auto
    with i assms(3) show "x \<le> m" by simp
  qed
  have "filter (\<lambda>x. x \<le> m) ys = filter (\<lambda>x. x \<le> m) (take (Suc k) ys) @ filter (\<lambda>x. x \<le> m) (drop (Suc k) ys)"
    by (metis append_take_drop_id filter_append)
  moreover have "filter (\<lambda>x. x \<le> m) (take (Suc k) ys) = take (Suc k) ys"
    using all by (simp add: filter_id_conv)
  ultimately have "length (filter (\<lambda>x. x \<le> m) ys) \<ge> length (take (Suc k) ys)"
    by simp
  then show ?thesis using assms(2) by simp
qed

lemma count_ge_sorted:
  fixes ys :: "rat list"
  assumes "sorted ys" "k < length ys" "m \<le> ys ! k"
  shows "length ys - k \<le> length (filter (\<lambda>x. m \<le> x) ys)"
proof -
  have all: "\<forall>x\<in>set (drop k ys). m \<le> x"
  proof
    fix x assume "x \<in> set (drop k ys)"
    then obtain i where i: "i < length ys - k" "x = ys ! (k + i)"
      by (auto simp: in_set_conv_nth)
    then have "ys ! k \<le> ys ! (k + i)"
      using assms(1,2) by (intro sorted_nth_mono) auto
    with i assms(3) show "m \<le> x" by simp
  qed
  have "filter (\<lambda>x. m \<le> x) ys = filter (\<lambda>x. m \<le> x) (take k ys) @ filter (\<lambda>x. m \<le> x) (drop k ys)"
    by (metis append_take_drop_id filter_append)
  moreover have "filter (\<lambda>x. m \<le> x) (drop k ys) = drop k ys"
    using all by (simp add: filter_id_conv)
  ultimately have "length (filter (\<lambda>x. m \<le> x) ys) \<ge> length (drop k ys)"
    by simp
  then show ?thesis by simp
qed

lemma length_filter_sort:
  "length (filter P (sort xs)) = length (filter P (xs :: rat list))"
proof -
  have "mset (filter P (sort xs)) = mset (filter P xs)"
    by (simp only: mset_filter mset_sort)
  then show ?thesis by (metis size_mset)
qed

lemma median_spec_median:
  assumes "xs \<noteq> []"
  shows "\<exists>m. median xs = Some m \<and> spec_median xs m"
proof -
  let ?ys = "sort xs"
  let ?n = "length ?ys"
  have n: "?n = length xs" "0 < ?n" using assms by simp_all
  have srt: "sorted ?ys" by simp
  have ne: "?ys \<noteq> []" using assms by (metis length_0_conv length_sort)
  show ?thesis
  proof (cases "?n mod 2 = 1")
    case True
    let ?m = "?ys ! (?n div 2)"
    have k: "?n div 2 < ?n" using n by simp
    have med: "median xs = Some ?m"
      using True n ne by (simp add: median_def Let_def)
    have "Suc (?n div 2) \<le> length (filter (\<lambda>x. x \<le> ?m) ?ys)"
      using count_le_sorted[OF srt k] by simp
    moreover have "?n - ?n div 2 \<le> length (filter (\<lambda>x. ?m \<le> x) ?ys)"
      using count_ge_sorted[OF srt k] by simp
    ultimately have "?n \<le> 2 * length (filter (\<lambda>x. x \<le> ?m) ?ys)"
      and "?n \<le> 2 * length (filter (\<lambda>x. ?m \<le> x) ?ys)"
      by linarith+
    then have "spec_median xs ?m"
      unfolding spec_median_def length_filter_sort using n(1) by simp
    with med show ?thesis by blast
  next
    case False
    then have even: "?n mod 2 = 0" by simp
    let ?a = "?ys ! (?n div 2 - 1)"
    let ?b = "?ys ! (?n div 2)"
    let ?m = "(?a + ?b) / 2"
    have ka: "?n div 2 - 1 < ?n" and kb: "?n div 2 < ?n" using n(2) by linarith+
    have ge2: "2 \<le> ?n" using even n(2) by presburger
    have ab: "?a \<le> ?b"
      using srt kb by (intro sorted_nth_mono) auto
    have am: "?a \<le> ?m" and mb: "?m \<le> ?b" using ab by (simp_all add: field_simps)
    have med: "median xs = Some ?m"
      using even n ne by (simp add: median_def Let_def)
    have "Suc (?n div 2 - 1) \<le> length (filter (\<lambda>x. x \<le> ?m) ?ys)"
      using count_le_sorted[OF srt ka am] .
    moreover have "?n - ?n div 2 \<le> length (filter (\<lambda>x. ?m \<le> x) ?ys)"
      using count_ge_sorted[OF srt kb mb] .
    ultimately have "?n \<le> 2 * length (filter (\<lambda>x. x \<le> ?m) ?ys)"
      and "?n \<le> 2 * length (filter (\<lambda>x. ?m \<le> x) ?ys)"
      using even ge2 by presburger+
    then have "spec_median xs ?m"
      unfolding spec_median_def length_filter_sort using n(1) by simp
    with med show ?thesis by blast
  qed
qed

subsection \<open>Grouping\<close>

lemma keys_add_to_group: "fst ` set (add_to_group m r gs) = insert m (fst ` set gs)"
proof -
  have "set (map fst (add_to_group m r gs)) = insert m (set (map fst gs))"
    by (induction m r gs rule: add_to_group.induct) auto
  then show ?thesis by simp
qed

lemma sorted_add_to_group:
  "sorted_wrt (<) (map fst gs) \<Longrightarrow> sorted_wrt (<) (map fst (add_to_group m r gs))"
proof (induction gs)
  case Nil then show ?case by simp
next
  case (Cons g gs)
  have "\<forall>x\<in>fst ` set (add_to_group m r gs). x = m \<or> x \<in> fst ` set gs"
    by (simp add: keys_add_to_group)
  with Cons show ?case by (cases g) (auto simp: keys_add_to_group)
qed

lemma rows_add_to_group:
  "sorted_wrt (<) (map fst gs) \<Longrightarrow>
   map_of (add_to_group m r gs) k =
     (if k = m then Some ((case map_of gs m of None \<Rightarrow> [] | Some rs \<Rightarrow> rs) @ [r])
      else map_of gs k)"
proof (induction gs)
  case Nil then show ?case by simp
next
  case (Cons g gs)
  obtain k' rs' where g: "g = (k', rs')" by (cases g)
  have later: "\<forall>x\<in>fst ` set gs. k' < x" using Cons.prems g by auto
  show ?case
  proof (cases "m = k'")
    case True
    with g show ?thesis by simp
  next
    case False
    show ?thesis
    proof (cases "m < k'")
      case True
      then have "m \<notin> fst ` set gs" using later by auto
      then have "map_of gs m = None" by (simp add: map_of_eq_None_iff)
      with True False g show ?thesis by simp
    next
      case ge: False
      have "sorted_wrt (<) (map fst gs)" using Cons.prems by simp
      from Cons.IH[OF this] ge False g show ?thesis by auto
    qed
  qed
qed

lemma keys_groupby:
  "fst ` set (groupby_published_month df gs)
     = fst ` set gs \<union> {m. Some m \<in> published_month ` set df}"
proof (induction df arbitrary: gs)
  case Nil then show ?case by simp
next
  case (Cons r rs)
  show ?case
  proof (cases "published_month r")
    case None
    then show ?thesis using Cons[of gs] by (auto simp: image_iff)
  next
    case (Some m)
    then show ?thesis
      using Cons[of "add_to_group m r gs"] by (auto simp: keys_add_to_group image_iff)
  qed
qed

lemma sorted_groupby:
  "sorted_wrt (<) (map fst gs) \<Longrightarrow>
   sorted_wrt (<) (map fst (groupby_published_month df gs))"
  by (induction df arbitrary: gs) (auto simp: sorted_add_to_group split: option.splits)

lemma rows_groupby:
  "sorted_wrt (<) (map fst gs) \<Longrightarrow>
   (case map_of (groupby_published_month df gs) k of None \<Rightarrow> [] | Some rs \<Rightarrow> rs)
     = (case map_of gs k of None \<Rightarrow> [] | Some rs \<Rightarrow> rs)
       @ filter (\<lambda>r. published_month r = Some k) df"
proof (induction df arbitrary: gs)
  case Nil then show ?case by simp
next
  case (Cons r rs)
  show ?case
  proof (cases "published_month r")
    case None
    then show ?thesis using Cons.IH[OF Cons.prems] by simp
  next
    case (Some m)
    have s: "sorted_wrt (<) (map fst (add_to_group m r gs))"
      using Cons.prems by (rule sorted_add_to_group)
    show ?thesis
      using Cons.IH[OF s] Some rows_add_to_group[OF Cons.prems, of m r k]
      by (auto split: option.splits)
  qed
qed

lemma group_rows:
  assumes "(k, rs) \<in> set (groupby_published_month df [])"
  shows "rs = filter (\<lambda>r. published_month r = Some k) df"
proof -
  have "sorted_wrt (<) (map fst (groupby_published_month df []))"
    by (rule sorted_groupby) simp
  then have "distinct (map fst (groupby_published_month df []))"
    using strict_sorted_iff by blast
  then have "map_of (groupby_published_month df []) k = Some rs"
    using assms by simp
  then show ?thesis
    using rows_groupby[of "[]" df k] by simp
qed

lemma total_add_to_group:
  "sum_list (map (\<lambda>g. sum_list (map job_count (snd g))) (add_to_group m r gs))
     = sum_list (map (\<lambda>g. sum_list (map job_count (snd g))) gs) + job_count r"
  by (induction gs) (auto simp: algebra_simps)

lemma total_groupby:
  "sum_list (map (\<lambda>g. sum_list (map job_count (snd g))) (groupby_published_month df gs))
     = sum_list (map (\<lambda>g. sum_list (map job_count (snd g))) gs)
       + sum_list (map job_count (filter (\<lambda>r. published_month r \<noteq> None) df))"
  by (induction df arbitrary: gs)
     (auto simp: total_add_to_group algebra_simps split: option.splits)

subsection \<open>The aggregate\<close>

lemma months_time_series_data:
  "map ts_month (time_series_data float_sum df) = map fst (groupby_published_month df [])"
  by (simp add: time_series_data_def agg_sum_def comp_def)

lemma sorted_time_series: "sorted_wrt (<) (map ts_month (time_series_data float_sum df))"
  unfolding months_time_series_data by (rule sorted_groupby) simp

lemma distinct_time_series: "distinct (map ts_month (time_series_data float_sum df))"
  using sorted_time_series[of float_sum df] strict_sorted_iff by blast

lemma months_time_series:
  "set (map ts_month (time_series_data float_sum df)) = {m. Some m \<in> published_month ` set df}"
  unfolding months_time_series_data using keys_groupby[of df "[]"] by simp

lemma length_time_series:
  "length (time_series_data float_sum df) = card {m. Some m \<in> published_month ` set df}"
proof -
  have "length (time_series_data float_sum df)
          = length (map ts_month (time_series_data float_sum df))"
    by simp
  also have "\<dots> = card (set (map ts_month (time_series_data float_sum df)))"
    using distinct_time_series[of float_sum df] by (simp only: distinct_card)
  finally show ?thesis by (simp only: months_time_series)
qed

lemma row_time_series:
  assumes "g \<in> set (time_series_data float_sum df)"
  shows "ts_job_count g
           = series_sum (map job_count (filter (\<lambda>r. published_month r = Some (ts_month g)) df))
       \<and> ts_fee g
           = float_sum (map simulated_platform_fee
               (filter (\<lambda>r. published_month r = Some (ts_month g)) df))"
proof -
  obtain k rs where m: "(k, rs) \<in> set (groupby_published_month df [])"
    and g: "g = agg_sum float_sum (k, rs)"
    using assms by (auto simp: time_series_data_def)
  have "rs = filter (\<lambda>r. published_month r = Some k) df"
    using m by (rule group_rows)
  with g show ?thesis by (simp add: agg_sum_def)
qed

lemma total_time_series:
  "series_sum (map ts_job_count (time_series_data float_sum df))
     = series_sum (map job_count (filter (\<lambda>r. published_month r \<noteq> None) df))"
  using total_groupby[of df "[]"]
  by (simp add: time_series_data_def agg_sum_def series_sum_sum_list comp_def)

lemma present_months_image:
  assumes "\<forall>r\<in>set df. published_month r \<noteq> None"
  shows "Some ` {m. Some m \<in> published_month ` set df} = published_month ` set df"
  using assms by (auto simp: image_iff) (metis not_None_eq)+

subsection \<open>Date conversion\<close>

lemma to_datetime_raises:
  "Some s \<in> set col \<Longrightarrow> parse s = None \<Longrightarrow> to_datetime parse col = Inl ParseError"
proof (induction parse col rule: to_datetime.induct)
  case (1 parse) then show ?case by simp
next
  case (2 parse cs) then show ?case by simp
next
  case (3 parse s' cs)
  then show ?case by (cases "parse s'") (auto split: sum.splits)
qed

lemma to_datetime_only_ParseError:
  "to_datetime parse col = Inl e \<Longrightarrow> e = ParseError"
  by (induction parse col arbitrary: e rule: to_datetime.induct)
     (auto split: sum.splits option.splits)

subsection \<open>Taking rows by position\<close>

lemma take_rows_in_range:
  "\<forall>i\<in>set idxs. i < length df \<Longrightarrow> take_rows df idxs = Inr (map ((!) df) idxs)"
  by (induction idxs) auto

lemma mset_rows_subset:
  assumes "distinct idxs" and "\<forall>i\<in>set idxs. i < length df"
  shows "mset (map ((!) df) idxs) \<subseteq># mset df"
proof -
  have "mset idxs = mset_set (set idxs)"
    using assms(1) by (simp add: mset_set_set)
  moreover have "mset_set (set idxs) \<subseteq># mset_set {0..<length df}"
    using assms(2) by (intro subset_imp_msubset_mset_set) auto
  ultimately have "mset idxs \<subseteq># mset [0..<length df]"
    by simp
  then have "image_mset ((!) df) (mset idxs) \<subseteq># image_mset ((!) df) (mset [0..<length df])"
    by (rule image_mset_subseteq_mono)
  moreover have "image_mset ((!) df) (mset [0..<length df]) = mset df"
    by (metis map_nth mset_map)
  ultimately show ?thesis by simp
qed

lemma sample_df_too_large:
  "length df < n \<Longrightarrow> fst (sample_df RandomState permutation n rs df glob) = Inl ValueError"
  by (simp add: sample_df_def)

lemma sample_df_draws:
  assumes perm: "mset (fst (permutation (RandomState s) (length df))) = mset [0..<length df]"
    and n: "n \<le> length df"
  shows "\<exists>idxs. distinct idxs \<and> length idxs = n \<and> (\<forall>i\<in>set idxs. i < length df)
           \<and> fst (sample_df RandomState permutation n (Seed s) df glob) = Inr (map ((!) df) idxs)
           \<and> mset (map ((!) df) idxs) \<subseteq># mset df"
proof -
  let ?p = "fst (permutation (RandomState s) (length df))"
  let ?idxs = "take n ?p"
  have d: "distinct ?p"
    using perm by (metis distinct_upt mset_eq_imp_distinct_iff)
  have s: "set ?p = {0..<length df}"
    using perm by (metis mset_eq_setD set_upt)
  have l: "length ?p = length df"
    using perm by (metis length_upt mset_eq_length minus_nat.diff_0)
  have d': "distinct ?idxs" using d by simp
  have l': "length ?idxs = n" using l n by simp
  have r: "\<forall>i\<in>set ?idxs. i < length df"
    using s by (auto dest: in_set_takeD)
  have "fst (sample_df RandomState permutation n (Seed s) df glob) = Inr (map ((!) df) ?idxs)"
    using n take_rows_in_range[OF r] by (simp add: sample_df_def)
  then show ?thesis
    using d' l' r mset_rows_subset[OF d' r] by blast
qed

text \<open>
  Drawing from the global generator is not repeatable: on the sample generator, two draws
  of two rows out of three differ when the global state differs.
\<close>

lemma unseeded_sample_depends_on_state:
  "fst (sample_df counter_RandomState counter_permutation 2 Unseeded three_rows 0)
     \<noteq> fst (sample_df counter_RandomState counter_permutation 2 Unseeded three_rows 1)"
  by (simp add: sample_df_def counter_permutation_def three_rows_def sample_listing_def
        upt_rec numeral_2_eq_2 numeral_3_eq_3)

section \<open>Time-series aggregation\<close>

text \<open>
  Claim C1, as stated, at a well-formed table of two rows in one month with the counts
  9223372036854775807 and 1: the aggregate has its one row, but the \<open>job_count\<close> of that
  row is -9223372036854775808, while the counts sum to 9223372036854775808.
\<close>

theorem time_series_sum_counterexample:
  "None \<notin> set (map published_month overflow_rows)
   \<and> map ts_month (time_series_data unrounded_sum overflow_rows) = [1704067200]
   \<and> sint (ts_job_count (hd (time_series_data unrounded_sum overflow_rows)))
       = - 9223372036854775808
   \<and> exact_sum (map job_count overflow_rows) = 9223372036854775808"
  by (simp add: time_series_data_def agg_sum_def overflow_rows_def sample_listing_def
        series_sum_def exact_sum_def)

text \<open>
  Claim C1, amended. For a loaded table in which every row has a month, the time-series
  aggregate has exactly as many rows as the table has distinct months, its months are
  exactly the months of the table, and it is in strictly ascending order of month (so no
  month occurs twice). The \<open>job_count\<close> of a row is the sum of \<open>job_count\<close> over the table
  rows of its month in wrapping signed 64-bit arithmetic, which is the exact sum whenever
  that lies in the int64 range; its fee is the float64 sum of the
  \<open>simulated_platform_fee\<close> cells of those rows, in file order.
\<close>

theorem time_series_one_row_per_month:
  assumes "\<forall>r\<in>set df. published_month r \<noteq> None"
  shows "length (time_series_data float_sum df) = card (published_month ` set df)
    \<and> Some ` set (map ts_month (time_series_data float_sum df)) = published_month ` set df
    \<and> sorted_wrt (<) (map ts_month (time_series_data float_sum df))
    \<and> (\<forall>g\<in>set (time_series_data float_sum df).
         sint (ts_job_count g)
           = signed_take_bit 63
               (exact_sum (map job_count (filter (\<lambda>r. published_month r = Some (ts_month g)) df)))
       \<and> (- (2 ^ 63) \<le> exact_sum (map job_count (filter (\<lambda>r. published_month r = Some (ts_month g)) df))
          \<and> exact_sum (map job_count (filter (\<lambda>r. published_month r = Some (ts_month g)) df)) < 2 ^ 63
          \<longrightarrow> sint (ts_job_count g)
                = exact_sum (map job_count (filter (\<lambda>r. published_month r = Some (ts_month g)) df)))
       \<and> ts_fee g
           = float_sum (map simulated_platform_fee
               (filter (\<lambda>r. published_month r = Some (ts_month g)) df)))"
proof -
  let ?M = "{m. Some m \<in> published_month ` set df}"
  let ?ts = "time_series_data float_sum df"
  have img: "Some ` ?M = published_month ` set df"
    using present_months_image[OF assms] .
  have "card (Some ` ?M) = card ?M"
    by (rule card_image) simp
  then have len: "length ?ts = card (published_month ` set df)"
    using img length_time_series[of float_sum df] by simp
  have keys: "Some ` set (map ts_month ?ts) = published_month ` set df"
    using img by (simp only: months_time_series)
  have rows: "sint (ts_job_count g)
           = signed_take_bit 63
               (exact_sum (map job_count (filter (\<lambda>r. published_month r = Some (ts_month g)) df)))
       \<and> (- (2 ^ 63) \<le> exact_sum (map job_count (filter (\<lambda>r. published_month r = Some (ts_month g)) df))
          \<and> exact_sum (map job_count (filter (\<lambda>r. published_month r = Some (ts_month g)) df)) < 2 ^ 63
          \<longrightarrow> sint (ts_job_count g)
                = exact_sum (map job_count (filter (\<lambda>r. published_month r = Some (ts_month g)) df)))
       \<and> ts_fee g
           = float_sum (map simulated_platform_fee
               (filter (\<lambda>r. published_month r = Some (ts_month g)) df))"
    if "g \<in> set ?ts" for g
  proof -
    let ?col = "map job_count (filter (\<lambda>r. published_month r = Some (ts_month g)) df)"
    have j: "ts_job_count g = series_sum ?col"
      and f: "ts_fee g = float_sum (map simulated_platform_fee
               (filter (\<lambda>r. published_month r = Some (ts_month g)) df))"
      using row_time_series[OF that] by simp_all
    have a: "sint (ts_job_count g) = signed_take_bit 63 (exact_sum ?col)"
      unfolding j by (rule sint_series_sum)
    have b: "- (2 ^ 63) \<le> exact_sum ?col \<and> exact_sum ?col < 2 ^ 63
               \<longrightarrow> sint (ts_job_count g) = exact_sum ?col"
      unfolding j using sint_series_sum_in_range[of ?col] by blast
    from a b f show ?thesis by blast
  qed
  show ?thesis
    using len keys sorted_time_series[of float_sum df] rows by blast
qed

theorem time_series_one_row_per_month_witness:
  "None \<notin> set (map published_month three_rows)
   \<and> length (time_series_data unrounded_sum three_rows) = card (published_month ` set three_rows)
   \<and> sorted_wrt (<) (map ts_month (time_series_data unrounded_sum three_rows))
   \<and> time_series_data unrounded_sum three_rows =
        [\<lparr>ts_month = 1704067200, ts_job_count = 20, ts_fee = 6\<rparr>,
         \<lparr>ts_month = 1706745600, ts_job_count = 40, ts_fee = 24\<rparr>]"
proof -
  have h: "\<forall>r\<in>set three_rows. published_month r \<noteq> None"
    by (simp add: three_rows_def sample_listing_def)
  have n: "None \<notin> set (map published_month three_rows)"
    by (simp add: three_rows_def sample_listing_def)
  have v: "time_series_data unrounded_sum three_rows =
        [\<lparr>ts_month = 1704067200, ts_job_count = 20, ts_fee = 6\<rparr>,
         \<lparr>ts_month = 1706745600, ts_job_count = 40, ts_fee = 24\<rparr>]"
    by (simp add: time_series_data_def agg_sum_def three_rows_def sample_listing_def
          series_sum_def unrounded_sum_def)
  show ?thesis
    using n v time_series_one_row_per_month[OF h, of unrounded_sum] by blast
qed

text \<open>
  Claim C10, as stated, at a file with one empty month cell: the load succeeds, the row
  without a month is in no group, and the aggregate sums to 10 while the KPI is 15.
\<close>

theorem monthly_total_counterexample:
  "load_data parse_sample (single_file ''data.csv'' blank_month_file) ''data.csv''
     = ([], Inr blank_month_table)
   \<and> series_sum (map ts_job_count (time_series_data unrounded_sum blank_month_table)) = 10
   \<and> TOTAL_PROJECTS blank_month_table = 15"
  by (simp add: load_data_def single_file_def blank_month_file_def blank_month_table_def
        sample_listing_def parse_sample_def assign_published_month_def
        set_published_month_def time_series_data_def agg_sum_def TOTAL_PROJECTS_def
        series_sum_def)

text \<open>
  Claim C10, amended. The int64 sum of the \<open>job_count\<close> column of the aggregate equals the
  int64 sum of \<open>job_count\<close> over the rows that have a month; when every row has a month
  this is the \<open>total_projects\<close> KPI. Nothing is stated for \<open>simulated_platform_fee\<close>: its
  totals are float64 sums, and a float64 sum depends on how the cells are grouped.
\<close>

theorem monthly_totals_preserved:
  "series_sum (map ts_job_count (time_series_data float_sum df))
     = TOTAL_PROJECTS (filter (\<lambda>r. published_month r \<noteq> None) df)
   \<and> ((\<forall>r\<in>set df. published_month r \<noteq> None) \<longrightarrow>
        series_sum (map ts_job_count (time_series_data float_sum df)) = TOTAL_PROJECTS df)"
proof -
  have j: "series_sum (map ts_job_count (time_series_data float_sum df))
             = TOTAL_PROJECTS (filter (\<lambda>r. published_month r \<noteq> None) df)"
    by (simp add: total_time_series TOTAL_PROJECTS_def)
  have "filter (\<lambda>r. published_month r \<noteq> None) df = df"
    if "\<forall>r\<in>set df. published_month r \<noteq> None"
    using that by (simp add: filter_id_conv)
  with j show ?thesis by simp
qed

theorem monthly_totals_preserved_witness:
  "None \<notin> set (map published_month three_rows)
   \<and> series_sum (map ts_job_count (time_series_data unrounded_sum three_rows))
       = TOTAL_PROJECTS three_rows
   \<and> TOTAL_PROJECTS three_rows = 60"
proof -
  have h: "\<forall>r\<in>set three_rows. published_month r \<noteq> None"
    by (simp add: three_rows_def sample_listing_def)
  have n: "None \<notin> set (map published_month three_rows)"
    by (simp add: three_rows_def sample_listing_def)
  have v: "TOTAL_PROJECTS three_rows = 60"
    by (simp add: TOTAL_PROJECTS_def series_sum_def three_rows_def sample_listing_def)
  show ?thesis
    using h n v monthly_totals_preserved[of unrounded_sum three_rows] by simp
qed

section \<open>Loader errors\<close>

text \<open>
  Claim C2, as stated, at a file whose second month cell is not a date: the conversion
  raises, the run shows nothing at all (no error box) and ends with the exception uncaught.
\<close>

theorem parse_error_counterexample:
  "to_datetime parse_sample (map published_month unparseable_file) = Inl ParseError
   \<and> dashboard parse_sample unrounded_sum counter_RandomState counter_permutation
       (single_file ''data.csv'' unparseable_file) ''data.csv'' 0
       = ([], Uncaught ParseError)"
  by (simp add: dashboard_def load_data_def single_file_def unparseable_file_def
        sample_listing_def parse_sample_def)

text \<open>
  Claim C2, amended. When the file exists and some text in its \<open>published_month\<close>
  column cannot be converted, the exception of the conversion leaves \<open>load_data\<close> and the
  script uncaught, the script shows no message of its own, and nothing further is
  computed in that run: no KPI card and no chart.
\<close>

theorem parse_error_propagates:
  assumes "fs path = Some df" and "Some s \<in> set (map published_month df)" and "parse s = None"
  shows "dashboard parse float_sum RandomState permutation fs path glob
           = ([], Uncaught ParseError)"
proof -
  have "to_datetime parse (map published_month df) = Inl ParseError"
    using assms(2,3) by (rule to_datetime_raises[where parse = parse and s = s])
  then show ?thesis
    using assms(1) by (simp add: dashboard_def load_data_def)
qed

theorem parse_error_propagates_witness:
  "single_file ''data.csv'' unparseable_file ''data.csv'' = Some unparseable_file
   \<and> Some ''last spring'' \<in> set (map published_month unparseable_file)
   \<and> parse_sample ''last spring'' = None
   \<and> dashboard parse_sample unrounded_sum counter_RandomState counter_permutation
       (single_file ''data.csv'' unparseable_file) ''data.csv'' 0
       = ([], Uncaught ParseError)"
proof -
  have a: "single_file ''data.csv'' unparseable_file ''data.csv'' = Some unparseable_file"
    by (simp add: single_file_def)
  have b: "Some ''last spring'' \<in> set (map published_month unparseable_file)"
    by (simp add: unparseable_file_def sample_listing_def)
  have c: "parse_sample ''last spring'' = None"
    by (simp add: parse_sample_def)
  show ?thesis
    using a b c
      parse_error_propagates[where fs = "single_file ''data.csv'' unparseable_file"
        and path = "''data.csv''" and df = unparseable_file and s = "''last spring''"
        and parse = parse_sample and float_sum = unrounded_sum
        and RandomState = counter_RandomState and permutation = counter_permutation
        and glob = 0]
    by blast
qed

text \<open>
  Claim C3. When the path does not exist, the run shows exactly one thing, the error
  message of the loader, and stops: no KPI card, no chart, and no exception.
\<close>

theorem missing_file_halts:
  "fs path = None \<Longrightarrow>
   dashboard parse float_sum RandomState permutation fs path glob
     = ([StError (''Error: Data file not found at '' @ path)], Stopped)"
  by (simp add: dashboard_def load_data_def)

theorem missing_file_halts_witness:
  "single_file ''data.csv'' blank_month_file ''elsewhere.csv'' = None
   \<and> dashboard parse_sample unrounded_sum counter_RandomState counter_permutation
       (single_file ''data.csv'' blank_month_file) ''elsewhere.csv'' 0
       = ([StError ''Error: Data file not found at elsewhere.csv''], Stopped)"
proof -
  have a: "single_file ''data.csv'' blank_month_file ''elsewhere.csv'' = None"
    by (simp add: single_file_def)
  show ?thesis
    using a
      missing_file_halts[where fs = "single_file ''data.csv'' blank_month_file"
        and path = "''elsewhere.csv''" and parse = parse_sample
        and float_sum = unrounded_sum and RandomState = counter_RandomState
        and permutation = counter_permutation and glob = 0]
    by simp
qed

section \<open>KPIs\<close>

text \<open>
  Claim C4. The KPI named \<open>avg_fee_per_job\<close> is a median of the
  \<open>simulated_platform_fee\<close> column of every table with a row; on the fees 10, 20, 30, 40
  it is 25; and it is not the mean: on the fees 4, 6, 20 it is 6, and the mean is 10.
\<close>

theorem avg_fee_is_median:
  "(df \<noteq> [] \<longrightarrow>
      (\<exists>m. AVG_FEE_PER_JOB df = Some m \<and> spec_median (map simulated_platform_fee df) m))
   \<and> (map simulated_platform_fee df = [10, 20, 30, 40] \<longrightarrow> AVG_FEE_PER_JOB df = Some 25)
   \<and> AVG_FEE_PER_JOB three_rows = Some 6
   \<and> spec_mean (map simulated_platform_fee three_rows) = 10"
proof -
  have a: "df \<noteq> [] \<longrightarrow>
      (\<exists>m. AVG_FEE_PER_JOB df = Some m \<and> spec_median (map simulated_platform_fee df) m)"
    using median_spec_median[of "map simulated_platform_fee df"]
    by (simp add: AVG_FEE_PER_JOB_def)
  have b: "map simulated_platform_fee df = [10, 20, 30, 40] \<longrightarrow> AVG_FEE_PER_JOB df = Some 25"
    by (simp add: AVG_FEE_PER_JOB_def median_def Let_def)
  have c: "AVG_FEE_PER_JOB three_rows = Some 6"
    by (simp add: AVG_FEE_PER_JOB_def median_def Let_def three_rows_def sample_listing_def)
  have d: "spec_mean (map simulated_platform_fee three_rows) = 10"
    by (simp add: spec_mean_def three_rows_def sample_listing_def)
  from a b c d show ?thesis by blast
qed

theorem avg_fee_is_median_witness:
  "four_rows \<noteq> []
   \<and> map simulated_platform_fee four_rows = [10, 20, 30, 40]
   \<and> AVG_FEE_PER_JOB four_rows = Some 25
   \<and> spec_median (map simulated_platform_fee four_rows) 25"
proof -
  have a: "four_rows \<noteq> []"
    by (simp add: four_rows_def)
  have b: "map simulated_platform_fee four_rows = [10, 20, 30, 40]"
    by (simp add: four_rows_def sample_listing_def)
  have c: "AVG_FEE_PER_JOB four_rows = Some 25"
    using b avg_fee_is_median[of four_rows] by simp
  have "\<exists>m. AVG_FEE_PER_JOB four_rows = Some m \<and> spec_median (map simulated_platform_fee four_rows) m"
    using a avg_fee_is_median[of four_rows] by blast
  with c have "spec_median (map simulated_platform_fee four_rows) 25" by auto
  with a b c show ?thesis by blast
qed

text \<open>
  Claim C7, as stated, at a table with the counts 9223372036854775807 and 1: the counts
  sum to 9223372036854775808 and the KPI is -9223372036854775808.
\<close>

theorem total_projects_counterexample:
  "exact_sum (map job_count overflow_rows) = 9223372036854775808
   \<and> sint (TOTAL_PROJECTS overflow_rows) = - 9223372036854775808"
  by (simp add: TOTAL_PROJECTS_def series_sum_def exact_sum_def overflow_rows_def
        sample_listing_def)

text \<open>
  Claim C7, amended. The \<open>total_projects\<close> KPI is the sum of \<open>job_count\<close> over all rows in
  wrapping signed 64-bit arithmetic; it is the exact sum whenever the exact sum lies in
  the int64 range, and on three rows with the counts 10, 20 and 30 it is 60.
\<close>

theorem total_projects_is_int64_sum:
  "sint (TOTAL_PROJECTS df) = signed_take_bit 63 (exact_sum (map job_count df))
   \<and> (- (2 ^ 63) \<le> exact_sum (map job_count df) \<and> exact_sum (map job_count df) < 2 ^ 63
        \<longrightarrow> sint (TOTAL_PROJECTS df) = exact_sum (map job_count df))
   \<and> (map job_count df = [10, 20, 30] \<longrightarrow> sint (TOTAL_PROJECTS df) = 60)"
proof -
  have a: "sint (TOTAL_PROJECTS df) = signed_take_bit 63 (exact_sum (map job_count df))"
    by (simp add: TOTAL_PROJECTS_def sint_series_sum)
  have b: "- (2 ^ 63) \<le> exact_sum (map job_count df) \<and> exact_sum (map job_count df) < 2 ^ 63
        \<longrightarrow> sint (TOTAL_PROJECTS df) = exact_sum (map job_count df)"
    unfolding TOTAL_PROJECTS_def using sint_series_sum_in_range[of "map job_count df"] by blast
  have c: "map job_count df = [10, 20, 30] \<longrightarrow> sint (TOTAL_PROJECTS df) = 60"
    by (simp add: TOTAL_PROJECTS_def series_sum_def)
  from a b c show ?thesis by blast
qed

theorem total_projects_is_int64_sum_witness:
  "map job_count three_rows = [10, 20, 30]
   \<and> exact_sum (map job_count three_rows) = 60
   \<and> sint (TOTAL_PROJECTS three_rows) = exact_sum (map job_count three_rows)
   \<and> sint (TOTAL_PROJECTS three_rows) = 60"
proof -
  have a: "map job_count three_rows = [10, 20, 30]"
    by (simp add: three_rows_def sample_listing_def)
  have e: "exact_sum (map job_count three_rows) = 60"
    by (simp add: a exact_sum_def)
  show ?thesis
    using a e total_projects_is_int64_sum[of three_rows] by simp
qed

text \<open>
  Claim C8. The \<open>total_client_countries\<close> KPI is the number of distinct values in the
  \<open>country\<close> column (a missing cell is not a value); on the countries US, US, FR, DE it
  is 3.
\<close>

theorem total_client_countries_is_distinct_count:
  "TOTAL_CLIENT_COUNTRIES df = card {c. Some c \<in> country ` set df}
   \<and> (map country df = [Some ''US'', Some ''US'', Some ''FR'', Some ''DE'']
        \<longrightarrow> TOTAL_CLIENT_COUNTRIES df = 3)"
proof -
  have "TOTAL_CLIENT_COUNTRIES df = card {c. Some c \<in> country ` set df}"
    by (simp add: TOTAL_CLIENT_COUNTRIES_def nunique_card)
  moreover have "map country df = [Some ''US'', Some ''US'', Some ''FR'', Some ''DE'']
        \<longrightarrow> TOTAL_CLIENT_COUNTRIES df = 3"
    by (simp add: TOTAL_CLIENT_COUNTRIES_def nunique_def)
  ultimately show ?thesis by blast
qed

theorem total_client_countries_is_distinct_count_witness:
  "map country four_rows = [Some ''US'', Some ''US'', Some ''FR'', Some ''DE'']
   \<and> TOTAL_CLIENT_COUNTRIES four_rows = 3"
proof -
  have a: "map country four_rows = [Some ''US'', Some ''US'', Some ''FR'', Some ''DE'']"
    by (simp add: four_rows_def sample_listing_def)
  show ?thesis
    using a total_client_countries_is_distinct_count[of four_rows] by simp
qed

section \<open>Sampler\<close>

text \<open>
  Claim C5. Let the generator seeded with 42 give a permutation of the positions of the
  table. On a table of at least 10,000 rows the sampler returns the rows at 10,000
  distinct positions of the table, so no row is drawn twice; on a table of fewer than
  10,000 rows the sampling step raises ValueError (the sample size is not clamped).
\<close>

theorem sampler_draws_or_fails:
  assumes "mset (fst (permutation (RandomState 42) (length df))) = mset [0..<length df]"
  shows "(10000 \<le> length df \<longrightarrow>
            (\<exists>idxs. distinct idxs \<and> length idxs = 10000 \<and> (\<forall>i\<in>set idxs. i < length df)
               \<and> fst (plot_data_sample RandomState permutation df glob) = Inr (map ((!) df) idxs)
               \<and> mset (map ((!) df) idxs) \<subseteq># mset df))
       \<and> (length df < 10000 \<longrightarrow>
            fst (plot_data_sample RandomState permutation df glob) = Inl ValueError)"
proof -
  have "10000 \<le> length df \<Longrightarrow>
          \<exists>idxs. distinct idxs \<and> length idxs = 10000 \<and> (\<forall>i\<in>set idxs. i < length df)
             \<and> fst (sample_df RandomState permutation 10000 (Seed 42) df glob)
                 = Inr (map ((!) df) idxs)
             \<and> mset (map ((!) df) idxs) \<subseteq># mset df"
    using assms
    by (rule sample_df_draws[where permutation = permutation and RandomState = RandomState
          and s = 42 and n = 10000])
  moreover have "length df < 10000 \<Longrightarrow>
      fst (sample_df RandomState permutation 10000 (Seed 42) df glob) = Inl ValueError"
    by (rule sample_df_too_large)
  ultimately show ?thesis
    unfolding plot_data_sample_def by blast
qed

theorem sampler_draws_or_fails_witness:
  "mset (fst (counter_permutation (counter_RandomState 42) (length ten_thousand_rows)))
     = mset [0..<length ten_thousand_rows]
   \<and> 10000 \<le> length ten_thousand_rows
   \<and> (\<exists>idxs. distinct idxs \<and> length idxs = 10000
         \<and> fst (plot_data_sample counter_RandomState counter_permutation ten_thousand_rows 0)
             = Inr (map ((!) ten_thousand_rows) idxs))
   \<and> mset (fst (counter_permutation (counter_RandomState 42) (length three_rows)))
       = mset [0..<length three_rows]
   \<and> length three_rows < 10000
   \<and> fst (plot_data_sample counter_RandomState counter_permutation three_rows 0)
       = Inl ValueError"
proof -
  have p: "mset (fst (counter_permutation (counter_RandomState 42) (length ten_thousand_rows)))
             = mset [0..<length ten_thousand_rows]"
    by (simp add: counter_permutation_def)
  have n: "10000 \<le> length ten_thousand_rows"
    by (simp add: ten_thousand_rows_def)
  have q: "mset (fst (counter_permutation (counter_RandomState 42) (length three_rows)))
             = mset [0..<length three_rows]"
    by (simp add: counter_permutation_def)
  have k: "length three_rows < 10000"
    by (simp add: three_rows_def)
  show ?thesis
    using p n q k
      sampler_draws_or_fails[where permutation = counter_permutation
        and RandomState = counter_RandomState and df = ten_thousand_rows and glob = 0]
      sampler_draws_or_fails[where permutation = counter_permutation
        and RandomState = counter_RandomState and df = three_rows and glob = 0]
    by blast
qed

text \<open>
  Claim C6. The sampler builds its generator from the fixed seed 42 at every invocation.
  So, whatever state \<open>glob1\<close> or \<open>glob2\<close> the global generator of the process is in, two
  invocations on the same table return the same rows (or both fail); an invocation leaves
  the global generator as it found it, so a second invocation right after a first returns
  what the first did; and two runs of the script on the same file show the same page.
\<close>

theorem sampling_deterministic:
  "fst (plot_data_sample RandomState permutation df glob1)
     = fst (plot_data_sample RandomState permutation df glob2)
   \<and> snd (plot_data_sample RandomState permutation df glob1) = glob1
   \<and> fst (plot_data_sample RandomState permutation df
            (snd (plot_data_sample RandomState permutation df glob1)))
       = fst (plot_data_sample RandomState permutation df glob1)
   \<and> dashboard parse float_sum RandomState permutation fs path glob1
       = dashboard parse float_sum RandomState permutation fs path glob2"
proof -
  have s: "fst (plot_data_sample RandomState permutation df glob1)
             = fst (plot_data_sample RandomState permutation df glob2)"
    by (simp add: plot_data_sample_def sample_df_def)
  have t: "fst (plot_data_sample RandomState permutation d glob1)
             = fst (plot_data_sample RandomState permutation d glob2)" for d :: table
    by (simp add: plot_data_sample_def sample_df_def)
  have g: "snd (plot_data_sample RandomState permutation df glob1) = glob1"
    by (simp add: plot_data_sample_def sample_df_def)
  have d: "dashboard parse float_sum RandomState permutation fs path glob1
             = dashboard parse float_sum RandomState permutation fs path glob2"
    unfolding dashboard_def t by (rule refl)
  from s g d show ?thesis by simp
qed

section \<open>Box plot\<close>

text \<open>
  Claim C9. For every table, in whatever order its rows and categories come, the box-plot
  request orders the categories by the explicit array Low Budget, Mid Budget, High Budget,
  Premium Budget.
\<close>

theorem box_plot_category_order:
  "categoryorder (fig_box df) = ''array''
   \<and> categoryarray (fig_box df)
       = [''Low Budget'', ''Mid Budget'', ''High Budget'', ''Premium Budget'']"
  by (simp add: fig_box_def)

end
